theory Spec2Isabelle
  imports Complex_Main "HOL-Library.Sublist"
begin

section \<open>Strings as the viewer uses them\<close>

text \<open>
  Mesh names, catalog keys and search queries are modelled as \<^typ>\<open>string\<close>
  (a list of 8-bit characters). \<open>String.prototype.toLowerCase\<close> is modelled on
  the ASCII range, where it maps \<open>A\<close>..\<open>Z\<close> to \<open>a\<close>..\<open>z\<close> and leaves every
  other character alone; the regular-expression class \<open>\d\<close> is the ten ASCII
  digits, as in JavaScript.
\<close>

definition lowerChar :: "char \<Rightarrow> char" where
  "lowerChar c =
     (let n = (of_char c :: nat)
      in if 65 \<le> n \<and> n \<le> 90 then char_of (n + 32) else c)"

definition toLowerCase :: "string \<Rightarrow> string" where
  "toLowerCase s = map lowerChar s"

definition isDigit :: "char \<Rightarrow> bool" where
  "isDigit c = (48 \<le> (of_char c :: nat) \<and> (of_char c :: nat) \<le> 57)"

definition isUnderscore :: "char \<Rightarrow> bool" where
  "isUnderscore c = (c = CHR ''_'')"

text \<open>\<open>s.includes(q)\<close>: \<open>q\<close> occurs in \<open>s\<close> as a contiguous substring.\<close>

fun includesStr :: "string \<Rightarrow> string \<Rightarrow> bool" where
  "includesStr [] q = (q = [])"
| "includesStr (c # cs) q = (prefix q (c # cs) \<or> includesStr cs q)"

section \<open>glTF name normalization\<close>

text \<open>
  \<open>.replace(/00\d+/g, '')\<close>: scanning from the left, every match of two zeros
  followed by a maximal non-empty run of digits is deleted, and the scan goes
  on behind the match.
\<close>

definition numericSuffixAt :: "string \<Rightarrow> bool" where
  "numericSuffixAt s =
     (case s of
        a # b # d # _ \<Rightarrow> a = CHR ''0'' \<and> b = CHR ''0'' \<and> isDigit d
      | _ \<Rightarrow> False)"

function removeNumericSuffixes :: "string \<Rightarrow> string" where
  "removeNumericSuffixes [] = []"
| "removeNumericSuffixes (c # cs) =
     (if numericSuffixAt (c # cs)
      then removeNumericSuffixes (dropWhile isDigit (tl cs))
      else c # removeNumericSuffixes cs)"
  by pat_completeness auto
termination
proof (relation "measure length")
  fix c :: char and cs :: string
  have "length (dropWhile isDigit (tl cs)) \<le> length (tl cs)"
    by (rule length_dropWhile_le)
  then show "(dropWhile isDigit (tl cs), c # cs) \<in> measure length"
    by simp
qed simp_all

text \<open>
  \<open>.replace(/__+/g, '_')\<close>: every maximal run of two or more underscores
  becomes a single underscore.
\<close>

definition doubleUnderscoreAt :: "string \<Rightarrow> bool" where
  "doubleUnderscoreAt s =
     (case s of c # d # _ \<Rightarrow> isUnderscore c \<and> isUnderscore d | _ \<Rightarrow> False)"

function collapseUnderscores :: "string \<Rightarrow> string" where
  "collapseUnderscores [] = []"
| "collapseUnderscores (c # cs) =
     (if doubleUnderscoreAt (c # cs)
      then CHR ''_'' # collapseUnderscores (dropWhile isUnderscore cs)
      else c # collapseUnderscores cs)"
  by pat_completeness auto
termination
proof (relation "measure length")
  fix c :: char and cs :: string
  have "length (dropWhile isUnderscore cs) \<le> length cs"
    by (rule length_dropWhile_le)
  then show "(dropWhile isUnderscore cs, c # cs) \<in> measure length"
    by simp
qed simp_all

text \<open>\<open>.replace(/_+$/, '')\<close>: the underscores at the end of the string are removed.\<close>

definition stripTrailingUnderscores :: "string \<Rightarrow> string" where
  "stripTrailingUnderscores s = rev (dropWhile isUnderscore (rev s))"

definition normalizeGltfName :: "string \<Rightarrow> string" where
  "normalizeGltfName gltfName =
     stripTrailingUnderscores
       (collapseUnderscores
         (toLowerCase
           (removeNumericSuffixes gltfName)))"

section \<open>The metadata catalog\<close>

text \<open>
  \<open>StructureMetadata\<close> as the interface declares it. The category \<open>type\<close> is kept
  a string, as it arrives from the JSON file: the colour and visibility tables
  below have a fallback for a category they do not list. \<open>layer\<close> is an integer,
  as the peel depth of the store is.
\<close>

record StructureMetadata =
  meshId :: string
  originalName :: string
  type :: string
  layer :: int
  regions :: "string list"
  center :: "real \<times> real \<times> real"

text \<open>
  \<open>metadata.structures\<close>, a \<open>Record<string, StructureMetadata>\<close>, is a finite map
  from keys to records; \<open>structures[k]\<close> is truthy exactly when \<open>k\<close> is a key of
  the catalog (a record is an object). Names of members that a JavaScript
  object inherits (such as \<open>constructor\<close>) are not catalog keys here.
\<close>

type_synonym Catalog = "string \<rightharpoonup> StructureMetadata"

record MetadataMatch =
  key :: string
  data :: StructureMetadata

definition findMetadataForMesh :: "string \<Rightarrow> Catalog \<Rightarrow> MetadataMatch option" where
  "findMetadataForMesh gltfName structures =
     (case structures gltfName of
        Some d \<Rightarrow> Some \<lparr>key = gltfName, data = d\<rparr>
      | None \<Rightarrow>
         (let normalized = normalizeGltfName gltfName
          in case structures normalized of
               Some d \<Rightarrow> Some \<lparr>key = normalized, data = d\<rparr>
             | None \<Rightarrow>
                (let lowercased = toLowerCase gltfName
                 in case structures lowercased of
                      Some d \<Rightarrow> Some \<lparr>key = lowercased, data = d\<rparr>
                    | None \<Rightarrow> None)))"

text \<open>
  The same three lookups, reporting which of them answered: the return
  statement of \<open>findMetadataForMesh\<close> that is reached.
\<close>

datatype LookupStage = MatchedExact | MatchedNormalized | MatchedLowercase | Unmatched

definition lookupStage :: "string \<Rightarrow> Catalog \<Rightarrow> LookupStage" where
  "lookupStage gltfName structures =
     (if structures gltfName \<noteq> None then MatchedExact
      else if structures (normalizeGltfName gltfName) \<noteq> None then MatchedNormalized
      else if structures (toLowerCase gltfName) \<noteq> None then MatchedLowercase
      else Unmatched)"

section \<open>Structure filtering\<close>

definition EXCLUDE_NAME_PATTERNS :: "string list" where
  "EXCLUDE_NAME_PATTERNS =
     [''plane'', ''planes'', ''flexion'', ''extension'', ''rotation'', ''abduction'',
      ''adduction'', ''pronation'', ''supination'', ''circumduction'',
      ''lateral_rectus_muscle'', ''medial_rectus_muscle'', ''superior_rectus_muscle'',
      ''inferior_rectus_muscle'', ''superior_oblique_muscle'', ''inferior_oblique_muscle'',
      ''pronator_quadratus'', ''pronator_teres'', ''supinator'', ''oblique_cord'',
      ''plantae'', ''popliteal'', ''femoris'', ''tibial'', ''fibular'', ''peroneal'',
      ''gastrocnemius'', ''soleus'', ''plantaris'', ''lymph_node'']"

text \<open>
  The suffix patterns are case-insensitive and anchored at the end of the
  string. A pattern without a digit class is a literal suffix of the lowercased
  name. \<open>/_o\d*[lr]$/i\<close> and \<open>/_e\d+[lr]$/i\<close> read the name from its end: a last
  character \<open>l\<close> or \<open>r\<close>, before it the whole run of digits (which \<open>\d+\<close> wants
  non-empty), before that the letter and the underscore.
\<close>

definition endsWithCI :: "string \<Rightarrow> string \<Rightarrow> bool" where
  "endsWithCI pat s = suffix pat (toLowerCase s)"

definition endsWithLetterDigitsSide :: "char \<Rightarrow> bool \<Rightarrow> string \<Rightarrow> bool" where
  "endsWithLetterDigitsSide letter needDigit s =
     (case rev (toLowerCase s) of
        [] \<Rightarrow> False
      | c # r \<Rightarrow>
          (c = CHR ''l'' \<or> c = CHR ''r'')
          \<and> (needDigit \<longrightarrow> (case r of [] \<Rightarrow> False | d # _ \<Rightarrow> isDigit d))
          \<and> prefix [letter, CHR ''_''] (dropWhile isDigit r))"

definition EXCLUDE_SUFFIX_PATTERNS :: "(string \<Rightarrow> bool) list" where
  "EXCLUDE_SUFFIX_PATTERNS =
     [endsWithCI ''_i'',
      endsWithLetterDigitsSide (CHR ''o'') False,
      endsWithLetterDigitsSide (CHR ''e'') True,
      endsWithCI ''_el'',
      endsWithCI ''_er'']"

definition EXCLUDE_TYPES :: "string list" where
  "EXCLUDE_TYPES = [''organ'']"

definition shouldRenderByTypeAndName :: "StructureMetadata \<Rightarrow> bool" where
  "shouldRenderByTypeAndName metadata =
     (if type metadata \<in> set EXCLUDE_TYPES then False
      else let nameLower = toLowerCase (meshId metadata)
           in if list_ex (\<lambda>pattern. includesStr nameLower pattern) EXCLUDE_NAME_PATTERNS
              then False
              else if list_ex (\<lambda>pattern. pattern (meshId metadata)) EXCLUDE_SUFFIX_PATTERNS
              then False
              else True)"

section \<open>Binding the scene to the catalog\<close>

text \<open>
  The scene is the sequence of objects that \<open>scene.traverse\<close> visits, in visiting
  order; an object is a \<open>THREE.Mesh\<close> or something else, and has a name. Of a
  processed mesh the model keeps the name (\<open>newMesh.name = child.name\<close>); the
  geometry is passed through and plays no part in the binding.
\<close>

datatype Object3D = Mesh string | NonMesh string

record ProcessedStructure =
  uniqueKey :: string
  mesh :: string
  metadata :: StructureMetadata
  center :: "real \<times> real \<times> real"

definition processGLTFMesh :: "string \<Rightarrow> StructureMetadata \<Rightarrow> string \<Rightarrow> ProcessedStructure" where
  "processGLTFMesh childName md uniqueK =
     \<lparr>uniqueKey = uniqueK, mesh = childName, metadata = md,
      center = StructureMetadata.center md\<rparr>"

text \<open>The variables of the \<open>useMemo\<close> callback that the traversal updates.\<close>

record BindState =
  structures :: "ProcessedStructure list"
  usedMetadataKeys :: "string set"
  skippedByTypeOrName :: nat
  skippedDuplicate :: nat
  unmatchedCount :: nat

definition initialBindState :: BindState where
  "initialBindState =
     \<lparr>structures = [], usedMetadataKeys = {}, skippedByTypeOrName = 0,
      skippedDuplicate = 0, unmatchedCount = 0\<rparr>"

text \<open>The callback of \<open>scene.traverse\<close>, for one visited object.\<close>

definition visit :: "Catalog \<Rightarrow> BindState \<Rightarrow> Object3D \<Rightarrow> BindState" where
  "visit cat st child =
     (case child of
        NonMesh _ \<Rightarrow> st
      | Mesh gltfMeshName \<Rightarrow>
          (case findMetadataForMesh gltfMeshName cat of
             None \<Rightarrow> st\<lparr>unmatchedCount := unmatchedCount st + 1\<rparr>
           | Some match \<Rightarrow>
               if key match \<in> usedMetadataKeys st
               then st\<lparr>skippedDuplicate := skippedDuplicate st + 1\<rparr>
               else if \<not> shouldRenderByTypeAndName (data match)
               then st\<lparr>skippedByTypeOrName := skippedByTypeOrName st + 1\<rparr>
               else st\<lparr>usedMetadataKeys := insert (key match) (usedMetadataKeys st),
                        structures := structures st
                          @ [processGLTFMesh gltfMeshName (data match) gltfMeshName]\<rparr>))"

definition traverse :: "Catalog \<Rightarrow> Object3D list \<Rightarrow> BindState" where
  "traverse cat scene = foldl (visit cat) initialBindState scene"

definition processedStructures :: "Catalog \<Rightarrow> Object3D list \<Rightarrow> ProcessedStructure list" where
  "processedStructures cat scene = structures (traverse cat scene)"

text \<open>
  A processed structure does not store the catalog key it was bound to; it is
  the key that its unique key, the raw mesh name, matches in the catalog.
\<close>

definition boundKey :: "Catalog \<Rightarrow> ProcessedStructure \<Rightarrow> string option" where
  "boundKey cat s = map_option key (findMetadataForMesh (uniqueKey s) cat)"

section \<open>The interaction store\<close>

text \<open>
  Modelled from the spec: the declaration of \<open>LayerVisibility\<close> (module
  \<open>@/types\<close>) is not among the sources. Its keys are the five that
  \<open>TYPE_TO_VISIBILITY_KEY\<close> maps to and that the layer controls list; a value of
  the type gives each key a flag.
\<close>

datatype LayerKey = Bones | Muscles | Organs | Tendons | Ligaments

type_synonym LayerVisibility = "LayerKey \<Rightarrow> bool"

text \<open>
  Modelled from the spec: the store (module \<open>@/store\<close>) is not among the
  sources. Its state has the fields that \<open>StructureMesh\<close> reads from
  \<open>useAnatomyStore()\<close>; a nullable key is an \<open>option\<close>, the peel depth an integer.
\<close>

record AnatomyState =
  hoveredStructureId :: "string option"
  selectedStructureId :: "string option"
  layerVisibility :: LayerVisibility
  peelDepth :: int
  searchQuery :: string

text \<open>
  Modelled from the spec: the action \<open>setSelectedStructure\<close> of the store, which
  "toggles to null if re-invoked with the already-selected key" and otherwise
  sets the selected key.
\<close>

definition setSelectedStructure :: "string option \<Rightarrow> AnatomyState \<Rightarrow> AnatomyState" where
  "setSelectedStructure k st =
     st\<lparr>selectedStructureId := (if k = selectedStructureId st then None else k)\<rparr>"

section \<open>The structure mesh component\<close>

record TypeColor =
  default_color :: string
  highlight :: string

definition TYPE_COLORS :: "string \<rightharpoonup> TypeColor" where
  "TYPE_COLORS = map_of
     [(''bone'', \<lparr>default_color = ''#E8DCC4'', highlight = ''#FFF8E7''\<rparr>),
      (''muscle'', \<lparr>default_color = ''#C41E3A'', highlight = ''#FF4D6A''\<rparr>),
      (''organ'', \<lparr>default_color = ''#8B4557'', highlight = ''#A85A6F''\<rparr>),
      (''tendon'', \<lparr>default_color = ''#D4A574'', highlight = ''#E8C9A0''\<rparr>),
      (''ligament'', \<lparr>default_color = ''#8B7355'', highlight = ''#A89070''\<rparr>),
      (''cartilage'', \<lparr>default_color = ''#A8D5BA'', highlight = ''#C5E8D2''\<rparr>),
      (''fascia'', \<lparr>default_color = ''#D4A5A5'', highlight = ''#E8C5C5''\<rparr>)]"

definition TYPE_TO_VISIBILITY_KEY :: "string \<rightharpoonup> LayerKey" where
  "TYPE_TO_VISIBILITY_KEY = map_of
     [(''bone'', Bones),
      (''muscle'', Muscles),
      (''organ'', Organs),
      (''tendon'', Tendons),
      (''ligament'', Ligaments),
      (''cartilage'', Bones),
      (''fascia'', Muscles)]"

text \<open>
  The state a mounted \<open>StructureMesh\<close> keeps of its own: the \<open>hovered\<close> flag and
  the opacity the animation has reached, as read when the component renders.
  Opacities are real numbers here. The component compares the opacity with
  the literal \<open>0.1\<close> and chooses the target among the literals \<open>0\<close>, \<open>1\<close> and
  \<open>0.9\<close>; the smoothing step of the frame callback is computed on the reals,
  from which the floating-point values differ by rounding only.
\<close>

record MeshLocal =
  hovered :: bool
  animatedOpacity :: real

text \<open>\<open>TYPE_COLORS[metadata.type] || TYPE_COLORS.muscle\<close>\<close>

definition colors :: "StructureMetadata \<Rightarrow> TypeColor" where
  "colors md =
     (case TYPE_COLORS (type md) of
        Some c \<Rightarrow> c
      | None \<Rightarrow> \<lparr>default_color = ''#C41E3A'', highlight = ''#FF4D6A''\<rparr>)"

definition isSelected :: "AnatomyState \<Rightarrow> StructureMetadata \<Rightarrow> bool" where
  "isSelected st md = (selectedStructureId st = Some (meshId md))"

definition matchesSearch :: "AnatomyState \<Rightarrow> StructureMetadata \<Rightarrow> bool" where
  "matchesSearch st md =
     (length (searchQuery st) > 1 \<and>
      (includesStr (toLowerCase (meshId md)) (toLowerCase (searchQuery st)) \<or>
       includesStr (toLowerCase (originalName md)) (toLowerCase (searchQuery st))))"

definition isHighlighted :: "MeshLocal \<Rightarrow> AnatomyState \<Rightarrow> StructureMetadata \<Rightarrow> bool" where
  "isHighlighted loc st md =
     (hovered loc \<or> isSelected st md \<or> hoveredStructureId st = Some (meshId md)
      \<or> matchesSearch st md)"

text \<open>\<open>TYPE_TO_VISIBILITY_KEY[metadata.type] || 'muscles'\<close>\<close>

definition visibilityKey :: "StructureMetadata \<Rightarrow> LayerKey" where
  "visibilityKey md =
     (case TYPE_TO_VISIBILITY_KEY (type md) of Some k \<Rightarrow> k | None \<Rightarrow> Muscles)"

definition isTypeVisible :: "AnatomyState \<Rightarrow> StructureMetadata \<Rightarrow> bool" where
  "isTypeVisible st md = layerVisibility st (visibilityKey md)"

definition maxVisibleLayer :: "AnatomyState \<Rightarrow> int" where
  "maxVisibleLayer st = 3 - peelDepth st"

definition isPeeled :: "AnatomyState \<Rightarrow> StructureMetadata \<Rightarrow> bool" where
  "isPeeled st md = (layer md > maxVisibleLayer st)"

definition shouldPeel :: "AnatomyState \<Rightarrow> StructureMetadata \<Rightarrow> bool" where
  "shouldPeel st md = (isPeeled st md \<and> \<not> matchesSearch st md)"

definition targetOpacity :: "AnatomyState \<Rightarrow> StructureMetadata \<Rightarrow> real" where
  "targetOpacity st md =
     (if shouldPeel st md then 0 else (if type md = ''bone'' then 1 else 0.9))"

text \<open>The colour that the frame callback steers the material to.\<close>

definition targetColor :: "MeshLocal \<Rightarrow> AnatomyState \<Rightarrow> StructureMetadata \<Rightarrow> string" where
  "targetColor loc st md =
     (if matchesSearch st md then ''#FFD700''
      else if isHighlighted loc st md \<and> \<not> shouldPeel st md then highlight (colors md)
      else default_color (colors md))"

definition isInteractive :: "MeshLocal \<Rightarrow> bool" where
  "isInteractive loc = (animatedOpacity loc > 0.1)"

text \<open>
  What the component returns: \<open>null\<close> when the layer of its category is
  switched off, else a mesh element whose ray casting is the default one only
  when the structure is interactive.
\<close>

record MeshElement =
  raycastEnabled :: bool

definition StructureMesh :: "MeshLocal \<Rightarrow> AnatomyState \<Rightarrow> StructureMetadata \<Rightarrow> MeshElement option" where
  "StructureMesh loc st md =
     (if \<not> isTypeVisible st md then None
      else Some \<lparr>raycastEnabled = isInteractive loc\<rparr>)"

text \<open>
  The pointer handlers act on the component's own state, on the store and on
  the cursor of the page. They take the actions of the store as arguments, and
  they see the \<open>isInteractive\<close> and \<open>isSelected\<close> of the render that installed
  them: a \<open>View\<close> is what that render read, its \<open>animatedOpacity\<close> the value
  the ref had then. Stopping the propagation of the event is not modelled.
\<close>

record View =
  local :: MeshLocal
  store :: AnatomyState
  cursor :: string

definition onPointerOver ::
  "(string option \<Rightarrow> AnatomyState \<Rightarrow> AnatomyState) \<Rightarrow> StructureMetadata \<Rightarrow> View \<Rightarrow> View" where
  "onPointerOver setHovered md v =
     (if \<not> isInteractive (local v) then v
      else v\<lparr>local := (local v)\<lparr>hovered := True\<rparr>,
             store := setHovered (Some (meshId md)) (store v),
             cursor := ''pointer''\<rparr>)"

definition onPointerOut ::
  "(string option \<Rightarrow> AnatomyState \<Rightarrow> AnatomyState) \<Rightarrow> StructureMetadata \<Rightarrow> View \<Rightarrow> View" where
  "onPointerOut setHovered md v =
     (if \<not> isInteractive (local v) then v
      else v\<lparr>local := (local v)\<lparr>hovered := False\<rparr>,
             store := setHovered None (store v),
             cursor := ''auto''\<rparr>)"

definition onClick ::
  "(string option \<Rightarrow> AnatomyState \<Rightarrow> AnatomyState) \<Rightarrow> StructureMetadata \<Rightarrow> View \<Rightarrow> View" where
  "onClick setSelected md v =
     (if \<not> isInteractive (local v) then v
      else v\<lparr>store :=
             setSelected (if isSelected (store v) md then None else Some (meshId md))
               (store v)\<rparr>)"

section \<open>The mounted component between renders\<close>

text \<open>
  A render reads \<open>animatedOpacity.current\<close> once; the frame callback changes the
  ref on every frame and does not render again. So a mounted component has the
  view of its last render, whose handlers and element stay installed, and
  beside it the current value of the ref, which is the opacity the material
  displays, and the \<open>depthWrite\<close> flag of the material.
\<close>

record Mounted =
  rendered :: View
  animatedOpacityRef :: real
  materialOpacity :: real
  depthWrite :: bool

text \<open>
  The first render: \<open>useState(false)\<close>, \<open>useRef(1)\<close>, and a material created with
  the base opacity of the category and \<open>depthWrite: true\<close>.
\<close>

definition mount :: "AnatomyState \<Rightarrow> StructureMetadata \<Rightarrow> string \<Rightarrow> Mounted" where
  "mount st md cur =
     \<lparr>rendered = \<lparr>local = \<lparr>hovered = False, animatedOpacity = 1\<rparr>, store = st, cursor = cur\<rparr>,
      animatedOpacityRef = 1,
      materialOpacity = (if type md = ''bone'' then 1 else 0.9),
      depthWrite = True\<rparr>"

text \<open>
  The frame callback, for the opacity: it returns at once while the material
  is not mounted, which is when the component has returned \<open>null\<close>; else it
  moves the ref towards the target of the last render and copies it to the
  material, and sets \<open>depthWrite\<close> from the new value.
\<close>

definition useFrame :: "StructureMetadata \<Rightarrow> Mounted \<Rightarrow> Mounted" where
  "useFrame md m =
     (if \<not> isTypeVisible (store (rendered m)) md then m
      else let a = animatedOpacityRef m
                 + (targetOpacity (store (rendered m)) md - animatedOpacityRef m) * 0.08
           in m\<lparr>animatedOpacityRef := a, materialOpacity := a, depthWrite := (a > 0.5)\<rparr>)"

text \<open>A render of the mounted component reads the ref again.\<close>

definition rerender :: "Mounted \<Rightarrow> Mounted" where
  "rerender m =
     m\<lparr>rendered :=
         (rendered m)\<lparr>local := (local (rendered m))\<lparr>animatedOpacity := animatedOpacityRef m\<rparr>\<rparr>\<rparr>"

text \<open>
  A pointer event on the mounted component runs the handler that the last
  render installed. The element that render returned decides whether the ray
  caster can hit the mesh at all.
\<close>

definition renderedElement :: "StructureMetadata \<Rightarrow> Mounted \<Rightarrow> MeshElement option" where
  "renderedElement md m = StructureMesh (local (rendered m)) (store (rendered m)) md"

definition pointerOver ::
  "(string option \<Rightarrow> AnatomyState \<Rightarrow> AnatomyState) \<Rightarrow> StructureMetadata \<Rightarrow> Mounted \<Rightarrow> Mounted" where
  "pointerOver setHovered md m = m\<lparr>rendered := onPointerOver setHovered md (rendered m)\<rparr>"

definition pointerOut ::
  "(string option \<Rightarrow> AnatomyState \<Rightarrow> AnatomyState) \<Rightarrow> StructureMetadata \<Rightarrow> Mounted \<Rightarrow> Mounted" where
  "pointerOut setHovered md m = m\<lparr>rendered := onPointerOut setHovered md (rendered m)\<rparr>"

definition click ::
  "(string option \<Rightarrow> AnatomyState \<Rightarrow> AnatomyState) \<Rightarrow> StructureMetadata \<Rightarrow> Mounted \<Rightarrow> Mounted" where
  "click setSelected md m = m\<lparr>rendered := onClick setSelected md (rendered m)\<rparr>"

section \<open>Notions used in the statements and proofs\<close>

text \<open>A string has a match of \<open>/00\d+/\<close>, or of \<open>/__+/\<close>, at some position.\<close>

fun hasNumericSuffix :: "string \<Rightarrow> bool" where
  "hasNumericSuffix [] = False"
| "hasNumericSuffix (c # cs) = (numericSuffixAt (c # cs) \<or> hasNumericSuffix cs)"

fun hasDoubleUnderscore :: "string \<Rightarrow> bool" where
  "hasDoubleUnderscore [] = False"
| "hasDoubleUnderscore (c # cs) = (doubleUnderscoreAt (c # cs) \<or> hasDoubleUnderscore cs)"

text \<open>
  The match that the traversal finds for a visited object, and whether the
  matched record fails or passes the filter. A catalog key is renderable when
  its record passes the filter.
\<close>

definition matchOf :: "Catalog \<Rightarrow> Object3D \<Rightarrow> MetadataMatch option" where
  "matchOf cat child =
     (case child of
        Mesh gltfMeshName \<Rightarrow> findMetadataForMesh gltfMeshName cat
      | NonMesh _ \<Rightarrow> None)"

definition failsFilter :: "Catalog \<Rightarrow> Object3D \<Rightarrow> bool" where
  "failsFilter cat child =
     (case matchOf cat child of
        Some m \<Rightarrow> \<not> shouldRenderByTypeAndName (data m)
      | None \<Rightarrow> False)"

definition passesFilter :: "Catalog \<Rightarrow> Object3D \<Rightarrow> bool" where
  "passesFilter cat child =
     (case matchOf cat child of
        Some m \<Rightarrow> shouldRenderByTypeAndName (data m)
      | None \<Rightarrow> False)"

definition renderableKey :: "Catalog \<Rightarrow> string \<Rightarrow> bool" where
  "renderableKey cat k =
     (case cat k of Some d \<Rightarrow> shouldRenderByTypeAndName d | None \<Rightarrow> False)"

text \<open>What every state of the traversal satisfies.\<close>

definition bindInvariant :: "Catalog \<Rightarrow> BindState \<Rightarrow> bool" where
  "bindInvariant cat st =
     (finite (usedMetadataKeys st)
      \<and> distinct (map (boundKey cat) (structures st))
      \<and> set (map (boundKey cat) (structures st)) = Some ` usedMetadataKeys st
      \<and> (\<forall>k \<in> usedMetadataKeys st. renderableKey cat k)
      \<and> (\<forall>s \<in> set (structures st). shouldRenderByTypeAndName (metadata s)))"

section \<open>Example data\<close>

definition pelvisRecord :: StructureMetadata where
  "pelvisRecord =
     \<lparr>meshId = ''pelvis_bone'', originalName = ''Pelvis bone'', type = ''bone'',
      layer = 0, regions = [''pelvis''], center = (0, 0, 0)\<rparr>"

definition heartRecord :: StructureMetadata where
  "heartRecord =
     \<lparr>meshId = ''heart'', originalName = ''Heart'', type = ''organ'',
      layer = 2, regions = [''thorax''], center = (0, 1, 0)\<rparr>"

definition hipRecord :: StructureMetadata where
  "hipRecord =
     \<lparr>meshId = ''hip_bone'', originalName = ''Hip bone'', type = ''bone'',
      layer = 0, regions = [''pelvis''], center = (0, 0, 0)\<rparr>"

definition pelvisCatalog :: Catalog where
  "pelvisCatalog = map_of [(''pelvis_bone'', pelvisRecord)]"

definition heartCatalog :: Catalog where
  "heartCatalog = map_of [(''heart'', heartRecord)]"

definition hipCatalog :: Catalog where
  "hipCatalog = map_of [(''hip_bone'', hipRecord)]"

definition mixedCatalog :: Catalog where
  "mixedCatalog = map_of [(''heart'', heartRecord), (''pelvis_bone'', pelvisRecord)]"

definition mixedScene :: "Object3D list" where
  "mixedScene =
     [NonMesh ''Scene'', Mesh ''heart001'', Mesh ''pelvis_bone001'', Mesh ''heart002'',
      Mesh ''pelvis_bone002'', Mesh ''unknown_mesh'']"

definition psoasRecord :: StructureMetadata where
  "psoasRecord =
     \<lparr>meshId = ''psoas_major'', originalName = ''Psoas Major'', type = ''muscle'',
      layer = 4, regions = [''abdomen''], center = (0, 0, 0)\<rparr>"

definition transversusRecord :: StructureMetadata where
  "transversusRecord =
     \<lparr>meshId = ''transversus_abdominis'', originalName = ''Transversus abdominis'',
      type = ''muscle'', layer = 3, regions = [''abdomen''], center = (0, 0, 0)\<rparr>"




definition allLayers :: LayerVisibility where
  "allLayers = (\<lambda>k. True)"

definition defaultState :: AnatomyState where
  "defaultState =
     \<lparr>hoveredStructureId = None, selectedStructureId = None, layerVisibility = allLayers,
      peelDepth = 0, searchQuery = ''''\<rparr>"

definition psoasSearch :: AnatomyState where
  "psoasSearch = defaultState\<lparr>searchQuery := ''PSOAS''\<rparr>"

definition psoasSelected :: AnatomyState where
  "psoasSelected = psoasSearch\<lparr>selectedStructureId := Some ''psoas_major''\<rparr>"



definition idleLocal :: MeshLocal where
  "idleLocal = \<lparr>hovered = False, animatedOpacity = 1\<rparr>"

definition hoveredLocal :: MeshLocal where
  "hoveredLocal = \<lparr>hovered = True, animatedOpacity = 1\<rparr>"

definition hipOrganRecord :: StructureMetadata where
  "hipOrganRecord = hipRecord\<lparr>type := ''organ''\<rparr>"

definition hipOrganCatalog :: Catalog where
  "hipOrganCatalog = map_of [(''hip_bone'', hipOrganRecord)]"

definition hipBothCatalog :: Catalog where
  "hipBothCatalog = map_of [(''Hip_Bone'', hipRecord), (''hip_bone'', hipOrganRecord)]"

text \<open>
  A muscle at layer 4, mounted in the initial state of the store, and the same
  component twenty-eight frames later.
\<close>

definition mountedPsoas :: Mounted where
  "mountedPsoas = mount defaultState psoasRecord ''auto''"

definition fadedPsoas :: Mounted where
  "fadedPsoas = (useFrame psoasRecord ^^ 28) mountedPsoas"

definition selectedView :: View where
  "selectedView =
     \<lparr>local = idleLocal, store = defaultState\<lparr>selectedStructureId := Some ''pelvis_bone''\<rparr>,
      cursor = ''pointer''\<rparr>"

section \<open>The name normalizer\<close>

lemma of_char_lowerChar:
  "(of_char (lowerChar c) :: nat) =
     (if 65 \<le> (of_char c :: nat) \<and> (of_char c :: nat) \<le> 90 then of_char c + 32 else of_char c)"
  by (simp add: lowerChar_def Let_def)

lemma isDigit_lowerChar [simp]: "isDigit (lowerChar c) = isDigit c"
  by (simp add: isDigit_def of_char_lowerChar)

lemma char_eq_code: "(c = d) = ((of_char c :: nat) = of_char d)"
  by simp

lemma lowerChar_eq_zero [simp]: "(lowerChar c = CHR ''0'') = (c = CHR ''0'')"
  by (simp add: char_eq_code [of _ "CHR ''0''"] of_char_lowerChar)

lemma isUnderscore_lowerChar [simp]: "isUnderscore (lowerChar c) = isUnderscore c"
  by (simp add: isUnderscore_def char_eq_code [of _ "CHR ''_''"] of_char_lowerChar)

lemma lowerChar_idem [simp]: "lowerChar (lowerChar c) = lowerChar c"
  by (rule of_char_eqI [where ?'a = nat]) (simp add: of_char_lowerChar)

lemma toLowerCase_idem: "toLowerCase (toLowerCase s) = toLowerCase s"
  by (simp add: toLowerCase_def)

lemma includesStr_sublist: "includesStr s q \<longleftrightarrow> sublist q s"
  by (induction s) (auto simp: sublist_Cons_right)

lemma numericSuffixAt_Cons:
  "numericSuffixAt (c # cs) =
     (c = CHR ''0'' \<and> (\<exists>d r. cs = CHR ''0'' # d # r \<and> isDigit d))"
  by (auto simp: numericSuffixAt_def split: list.splits)

lemma removeNumericSuffixes_digit_head:
  assumes "removeNumericSuffixes cs = d # r" and "isDigit d"
  shows "\<exists>d' r'. cs = d' # r' \<and> isDigit d'"
proof (cases cs)
  case Nil
  with assms show ?thesis by simp
next
  case (Cons c cs')
  show ?thesis
  proof (cases "numericSuffixAt (c # cs')")
    case True
    then have "c = CHR ''0''" by (simp add: numericSuffixAt_Cons)
    then have "isDigit c" by (simp add: isDigit_def)
    with Cons show ?thesis by simp
  next
    case False
    with assms Cons show ?thesis by simp
  qed
qed

lemma removeNumericSuffixes_zero_digit_head:
  assumes "removeNumericSuffixes cs = CHR ''0'' # d # r" and "isDigit d"
  shows "\<exists>d' r'. cs = CHR ''0'' # d' # r' \<and> isDigit d'"
proof (cases cs)
  case Nil
  with assms show ?thesis by simp
next
  case (Cons c cs')
  show ?thesis
  proof (cases "numericSuffixAt (c # cs')")
    case True
    then obtain e r' where "c = CHR ''0''" "cs' = CHR ''0'' # e # r'"
      by (auto simp: numericSuffixAt_Cons)
    moreover have "isDigit (CHR ''0'')" by (simp add: isDigit_def)
    ultimately show ?thesis using Cons by simp
  next
    case False
    with assms Cons have c: "c = CHR ''0''" and r: "removeNumericSuffixes cs' = d # r"
      by simp_all
    from removeNumericSuffixes_digit_head [OF r assms(2)] c Cons show ?thesis by auto
  qed
qed

lemma removeNumericSuffixes_clean: "\<not> hasNumericSuffix (removeNumericSuffixes s)"
proof (induction s rule: removeNumericSuffixes.induct)
  case 1
  show ?case by simp
next
  case (2 c cs)
  show ?case
  proof (cases "numericSuffixAt (c # cs)")
    case True
    with 2 show ?thesis by simp
  next
    case False
    have "\<not> numericSuffixAt (c # removeNumericSuffixes cs)"
    proof
      assume "numericSuffixAt (c # removeNumericSuffixes cs)"
      then obtain d r where c: "c = CHR ''0''"
        and r: "removeNumericSuffixes cs = CHR ''0'' # d # r" and d: "isDigit d"
        by (auto simp: numericSuffixAt_Cons)
      from removeNumericSuffixes_zero_digit_head [OF r d] c
      have "numericSuffixAt (c # cs)" by (auto simp: numericSuffixAt_Cons)
      with False show False by simp
    qed
    with False 2 show ?thesis by simp
  qed
qed

lemma removeNumericSuffixes_id: "\<not> hasNumericSuffix s \<Longrightarrow> removeNumericSuffixes s = s"
  by (induction s) simp_all

lemma numericSuffixAt_prefix:
  "prefix a b \<Longrightarrow> numericSuffixAt a \<Longrightarrow> numericSuffixAt b"
  by (auto simp: numericSuffixAt_def prefix_def split: list.splits)

lemma hasNumericSuffix_prefix:
  "prefix a b \<Longrightarrow> hasNumericSuffix a \<Longrightarrow> hasNumericSuffix b"
proof (induction a arbitrary: b)
  case Nil
  then show ?case by simp
next
  case (Cons x xs)
  from Cons.prems(1) obtain ys where b: "b = x # ys" and p: "prefix xs ys"
    by (cases b) auto
  from Cons.prems(2) show ?case
  proof (simp only: hasNumericSuffix.simps, elim disjE)
    assume "numericSuffixAt (x # xs)"
    with Cons.prems(1) have "numericSuffixAt b" using numericSuffixAt_prefix by blast
    with b show "hasNumericSuffix b" by simp
  next
    assume "hasNumericSuffix xs"
    with Cons.IH [OF p] b show "hasNumericSuffix b" by simp
  qed
qed

lemma numericSuffixAt_toLowerCase: "numericSuffixAt (map lowerChar s) = numericSuffixAt s"
  by (auto simp: numericSuffixAt_def split: list.splits)

lemma hasNumericSuffix_toLowerCase: "hasNumericSuffix (toLowerCase s) = hasNumericSuffix s"
  unfolding toLowerCase_def
proof (induction s)
  case Nil show ?case by simp
next
  case (Cons c cs)
  have "numericSuffixAt (lowerChar c # map lowerChar cs) = numericSuffixAt (c # cs)"
    using numericSuffixAt_toLowerCase [of "c # cs"] by simp
  with Cons show ?case by simp
qed

lemma hasNumericSuffix_suffix: "suffix a b \<Longrightarrow> hasNumericSuffix a \<Longrightarrow> hasNumericSuffix b"
proof (induction b)
  case Nil then show ?case by simp
next
  case (Cons y ys)
  then show ?case by (auto simp: suffix_Cons)
qed

lemma doubleUnderscoreAt_Cons:
  "doubleUnderscoreAt (c # cs) = (isUnderscore c \<and> (\<exists>d r. cs = d # r \<and> isUnderscore d))"
  by (auto simp: doubleUnderscoreAt_def split: list.splits)

lemma collapseUnderscores_head:
  "collapseUnderscores s = x # r \<Longrightarrow> \<exists>r'. s = x # r'"
  by (cases s) (auto simp: isUnderscore_def doubleUnderscoreAt_Cons split: if_splits)

lemma hasNumericSuffix_collapse:
  "hasNumericSuffix (collapseUnderscores s) \<Longrightarrow> hasNumericSuffix s"
proof (induction s rule: collapseUnderscores.induct)
  case 1
  then show ?case by simp
next
  case (2 c cs)
  show ?case
  proof (cases "doubleUnderscoreAt (c # cs)")
    case True
    with 2 have "hasNumericSuffix (dropWhile isUnderscore cs)"
      by (auto simp: numericSuffixAt_Cons)
    then have "hasNumericSuffix cs"
      by (rule hasNumericSuffix_suffix [OF suffix_dropWhile])
    then show ?thesis by simp
  next
    case False
    with "2.prems" have "numericSuffixAt (c # collapseUnderscores cs) \<or> hasNumericSuffix (collapseUnderscores cs)"
      by simp
    then show ?thesis
    proof
      assume "hasNumericSuffix (collapseUnderscores cs)"
      with 2 False show ?thesis by simp
    next
      assume "numericSuffixAt (c # collapseUnderscores cs)"
      then obtain d r where c: "c = CHR ''0''"
        and r: "collapseUnderscores cs = CHR ''0'' # d # r" and d: "isDigit d"
        by (auto simp: numericSuffixAt_Cons)
      from collapseUnderscores_head [OF r] obtain r' where cs: "cs = CHR ''0'' # r'" by blast
      with r have "collapseUnderscores r' = d # r"
        by (simp add: isUnderscore_def doubleUnderscoreAt_Cons)
      from collapseUnderscores_head [OF this] obtain r'' where "r' = d # r''" by blast
      with c cs d have "numericSuffixAt (c # cs)" by (simp add: numericSuffixAt_Cons)
      then show ?thesis by simp
    qed
  qed
qed

lemma prefix_stripTrailingUnderscores: "prefix (stripTrailingUnderscores s) s"
proof -
  have "suffix (dropWhile isUnderscore (rev s)) (rev s)" by (rule suffix_dropWhile)
  then have "prefix (rev (dropWhile isUnderscore (rev s))) (rev (rev s))"
    by (simp only: suffix_to_prefix)
  then show ?thesis by (simp add: stripTrailingUnderscores_def)
qed

lemma map_lowerChar_dropWhile:
  "map lowerChar (dropWhile isUnderscore s) = dropWhile isUnderscore (map lowerChar s)"
  by (induction s) simp_all

lemma toLowerCase_collapse:
  "toLowerCase (collapseUnderscores s) = collapseUnderscores (toLowerCase s)"
  unfolding toLowerCase_def
proof (induction s rule: collapseUnderscores.induct)
  case 1 show ?case by simp
next
  case (2 c cs)
  have u: "lowerChar (CHR ''_'') = CHR ''_''" by (simp add: lowerChar_def)
  have d: "doubleUnderscoreAt (lowerChar c # map lowerChar cs) = doubleUnderscoreAt (c # cs)"
    by (auto simp: doubleUnderscoreAt_def split: list.splits)
  show ?case
  proof (cases "doubleUnderscoreAt (c # cs)")
    case True
    with d 2 show ?thesis by (simp add: u map_lowerChar_dropWhile)
  next
    case False
    with d 2 show ?thesis by simp
  qed
qed

lemma toLowerCase_strip:
  "toLowerCase (stripTrailingUnderscores s) = stripTrailingUnderscores (toLowerCase s)"
proof -
  have "map lowerChar (rev (dropWhile isUnderscore (rev s)))
        = rev (map lowerChar (dropWhile isUnderscore (rev s)))"
    by (simp only: rev_map)
  also have "\<dots> = rev (dropWhile isUnderscore (map lowerChar (rev s)))"
    by (simp only: map_lowerChar_dropWhile)
  also have "\<dots> = rev (dropWhile isUnderscore (rev (map lowerChar s)))"
    by (simp only: rev_map)
  finally show ?thesis
    by (simp only: toLowerCase_def stripTrailingUnderscores_def)
qed

lemma collapseUnderscores_clean: "\<not> hasDoubleUnderscore (collapseUnderscores s)"
proof (induction s rule: collapseUnderscores.induct)
  case 1 show ?case by simp
next
  case (2 c cs)
  show ?case
  proof (cases "doubleUnderscoreAt (c # cs)")
    case True
    have "\<not> doubleUnderscoreAt (CHR ''_'' # collapseUnderscores (dropWhile isUnderscore cs))"
    proof
      assume "doubleUnderscoreAt (CHR ''_'' # collapseUnderscores (dropWhile isUnderscore cs))"
      then obtain d r where r: "collapseUnderscores (dropWhile isUnderscore cs) = d # r" and d: "isUnderscore d"
        by (auto simp: doubleUnderscoreAt_Cons split: list.splits)
      from collapseUnderscores_head [OF r] obtain r' where "dropWhile isUnderscore cs = d # r'" by blast
      then have "\<not> isUnderscore d" by (metis hd_dropWhile list.sel(1) list.distinct(1))
      with d show False by simp
    qed
    with True 2 show ?thesis by simp
  next
    case False
    have "\<not> doubleUnderscoreAt (c # collapseUnderscores cs)"
    proof
      assume "doubleUnderscoreAt (c # collapseUnderscores cs)"
      then obtain d r where c: "isUnderscore c" and r: "collapseUnderscores cs = d # r" and d: "isUnderscore d"
        by (auto simp: doubleUnderscoreAt_Cons split: list.splits)
      from collapseUnderscores_head [OF r] obtain r' where "cs = d # r'" by blast
      with c d False show False by (simp add: doubleUnderscoreAt_Cons)
    qed
    with False 2 show ?thesis by simp
  qed
qed

lemma collapseUnderscores_id: "\<not> hasDoubleUnderscore s \<Longrightarrow> collapseUnderscores s = s"
  by (induction s) simp_all

lemma doubleUnderscoreAt_prefix:
  "prefix a b \<Longrightarrow> doubleUnderscoreAt a \<Longrightarrow> doubleUnderscoreAt b"
  by (auto simp: doubleUnderscoreAt_def prefix_def split: list.splits)

lemma hasDoubleUnderscore_prefix:
  "prefix a b \<Longrightarrow> hasDoubleUnderscore a \<Longrightarrow> hasDoubleUnderscore b"
proof (induction a arbitrary: b)
  case Nil
  then show ?case by simp
next
  case (Cons x xs)
  from Cons.prems(1) obtain ys where b: "b = x # ys" and p: "prefix xs ys"
    by (cases b) auto
  from Cons.prems(2) show ?case
  proof (simp only: hasDoubleUnderscore.simps, elim disjE)
    assume "doubleUnderscoreAt (x # xs)"
    with Cons.prems(1) have "doubleUnderscoreAt b" using doubleUnderscoreAt_prefix by blast
    with b show "hasDoubleUnderscore b" by simp
  next
    assume "hasDoubleUnderscore xs"
    with Cons.IH [OF p] b show "hasDoubleUnderscore b" by simp
  qed
qed

lemma stripTrailingUnderscores_idem:
  "stripTrailingUnderscores (stripTrailingUnderscores s) = stripTrailingUnderscores s"
  by (simp add: stripTrailingUnderscores_def dropWhile_idem)

text \<open>
  Claim C6. The name normalizer is idempotent: for every string \<open>s\<close>, normalizing
  the normalized form of \<open>s\<close> gives the normalized form of \<open>s\<close> again, so an
  already-normalized key is returned unchanged.
\<close>

theorem normalizeGltfName_idempotent:
  "normalizeGltfName (normalizeGltfName s) = normalizeGltfName s"
proof -
  define a where "a = removeNumericSuffixes s"
  define b where "b = toLowerCase a"
  define c where "c = collapseUnderscores b"
  define d where "d = stripTrailingUnderscores c"
  have n: "normalizeGltfName s = d"
    by (simp add: normalizeGltfName_def a_def b_def c_def d_def)
  have pd: "prefix d c"
    unfolding d_def by (rule prefix_stripTrailingUnderscores)
  have "\<not> hasNumericSuffix b"
    unfolding b_def a_def by (simp add: hasNumericSuffix_toLowerCase removeNumericSuffixes_clean)
  then have "\<not> hasNumericSuffix c"
    unfolding c_def using hasNumericSuffix_collapse by blast
  then have "\<not> hasNumericSuffix d"
    using hasNumericSuffix_prefix [OF pd] by blast
  then have 1: "removeNumericSuffixes d = d"
    by (rule removeNumericSuffixes_id)
  have "toLowerCase c = c"
    unfolding c_def b_def by (simp add: toLowerCase_collapse toLowerCase_idem)
  then have 2: "toLowerCase d = d"
    unfolding d_def by (simp add: toLowerCase_strip)
  have "\<not> hasDoubleUnderscore c"
    unfolding c_def by (rule collapseUnderscores_clean)
  then have "\<not> hasDoubleUnderscore d"
    using hasDoubleUnderscore_prefix [OF pd] by blast
  then have 3: "collapseUnderscores d = d"
    by (rule collapseUnderscores_id)
  have 4: "stripTrailingUnderscores d = d"
    unfolding d_def by (rule stripTrailingUnderscores_idem)
  have "normalizeGltfName d = d"
    by (simp add: normalizeGltfName_def 1 2 3 4)
  with n show ?thesis by simp
qed

section \<open>The binder\<close>

lemma findMetadataForMesh_data:
  "findMetadataForMesh n cat = Some m \<Longrightarrow> cat (key m) = Some (data m)"
  by (auto simp: findMetadataForMesh_def Let_def split: option.splits)

lemma bindInvariant_initial: "bindInvariant cat initialBindState"
  by (simp add: bindInvariant_def initialBindState_def)

lemma boundKey_processGLTFMesh:
  "boundKey cat (processGLTFMesh n d n) = map_option key (findMetadataForMesh n cat)"
  by (simp add: boundKey_def processGLTFMesh_def)

lemma bindInvariant_visit:
  assumes "bindInvariant cat st"
  shows "bindInvariant cat (visit cat st child)"
proof (cases child)
  case (NonMesh n)
  with assms show ?thesis by (simp add: visit_def)
next
  case (Mesh n)
  show ?thesis
  proof (cases "findMetadataForMesh n cat")
    case None
    with Mesh assms show ?thesis by (simp add: visit_def bindInvariant_def)
  next
    case (Some m)
    show ?thesis
    proof (cases "key m \<in> usedMetadataKeys st \<or> \<not> shouldRenderByTypeAndName (data m)")
      case True
      with Mesh Some assms show ?thesis by (auto simp: visit_def bindInvariant_def)
    next
      case False
      then have fresh: "key m \<notin> usedMetadataKeys st" and ok: "shouldRenderByTypeAndName (data m)"
        by simp_all
      let ?p = "processGLTFMesh n (data m) n"
      have v: "visit cat st child =
                 st\<lparr>usedMetadataKeys := insert (key m) (usedMetadataKeys st),
                    structures := structures st @ [?p]\<rparr>"
        using Mesh Some fresh ok by (simp add: visit_def)
      have bk: "boundKey cat ?p = Some (key m)"
        using Some by (simp add: boundKey_processGLTFMesh)
      have notin: "Some (key m) \<notin> set (map (boundKey cat) (structures st))"
        using assms fresh by (auto simp: bindInvariant_def)
      have rk: "renderableKey cat (key m)"
        using findMetadataForMesh_data [OF Some] ok by (simp add: renderableKey_def)
      have md: "metadata ?p = data m" by (simp add: processGLTFMesh_def)
      from assms have fin: "finite (usedMetadataKeys st)"
        and dis: "distinct (map (boundKey cat) (structures st))"
        and eq: "set (map (boundKey cat) (structures st)) = Some ` usedMetadataKeys st"
        and rend: "\<forall>k \<in> usedMetadataKeys st. renderableKey cat k"
        and shr: "\<forall>s \<in> set (structures st). shouldRenderByTypeAndName (metadata s)"
        by (simp_all add: bindInvariant_def)
      show ?thesis
        unfolding v bindInvariant_def
        using fin dis eq rend shr bk notin rk md ok by auto
    qed
  qed
qed

lemma bindInvariant_foldl:
  "bindInvariant cat st \<Longrightarrow> bindInvariant cat (foldl (visit cat) st scene)"
  by (induction scene arbitrary: st) (simp_all add: bindInvariant_visit)

lemma bindInvariant_traverse: "bindInvariant cat (traverse cat scene)"
  unfolding traverse_def by (rule bindInvariant_foldl [OF bindInvariant_initial])

lemma used_key_passes:
  assumes "bindInvariant cat st" and "findMetadataForMesh n cat = Some m"
    and "key m \<in> usedMetadataKeys st"
  shows "shouldRenderByTypeAndName (data m)"
proof -
  from assms(1,3) have "renderableKey cat (key m)" by (simp add: bindInvariant_def)
  with findMetadataForMesh_data [OF assms(2)] show ?thesis by (simp add: renderableKey_def)
qed

lemma visit_skippedByTypeOrName:
  assumes "bindInvariant cat st"
  shows "skippedByTypeOrName (visit cat st child) =
           skippedByTypeOrName st + (if failsFilter cat child then 1 else 0)"
proof (cases child)
  case (NonMesh n)
  then show ?thesis by (simp add: visit_def failsFilter_def matchOf_def)
next
  case (Mesh n)
  show ?thesis
  proof (cases "findMetadataForMesh n cat")
    case None
    with Mesh show ?thesis by (simp add: visit_def failsFilter_def matchOf_def)
  next
    case (Some m)
    with Mesh used_key_passes [OF assms Some] show ?thesis
      by (auto simp: visit_def failsFilter_def matchOf_def)
  qed
qed

lemma visit_bound_or_duplicate:
  assumes "bindInvariant cat st"
  shows "skippedDuplicate (visit cat st child) + length (structures (visit cat st child)) =
           skippedDuplicate st + length (structures st)
           + (if passesFilter cat child then 1 else 0)"
proof (cases child)
  case (NonMesh n)
  then show ?thesis by (simp add: visit_def passesFilter_def matchOf_def)
next
  case (Mesh n)
  show ?thesis
  proof (cases "findMetadataForMesh n cat")
    case None
    with Mesh show ?thesis by (simp add: visit_def passesFilter_def matchOf_def)
  next
    case (Some m)
    with Mesh used_key_passes [OF assms Some] show ?thesis
      by (auto simp: visit_def passesFilter_def matchOf_def)
  qed
qed

lemma foldl_skippedByTypeOrName:
  "bindInvariant cat st \<Longrightarrow>
   skippedByTypeOrName (foldl (visit cat) st scene) =
     skippedByTypeOrName st + length (filter (failsFilter cat) scene)"
proof (induction scene arbitrary: st)
  case Nil
  show ?case by simp
next
  case (Cons child scene)
  from Cons.prems have "bindInvariant cat (visit cat st child)"
    by (rule bindInvariant_visit)
  from Cons.IH [OF this] visit_skippedByTypeOrName [OF Cons.prems, of child]
  show ?case by simp
qed

lemma foldl_bound_or_duplicate:
  "bindInvariant cat st \<Longrightarrow>
   skippedDuplicate (foldl (visit cat) st scene) + length (structures (foldl (visit cat) st scene)) =
     skippedDuplicate st + length (structures st) + length (filter (passesFilter cat) scene)"
proof (induction scene arbitrary: st)
  case Nil
  show ?case by simp
next
  case (Cons child scene)
  from Cons.prems have "bindInvariant cat (visit cat st child)"
    by (rule bindInvariant_visit)
  from Cons.IH [OF this] visit_bound_or_duplicate [OF Cons.prems, of child]
  show ?case by simp
qed

lemma distinct_uniqueKey:
  assumes "distinct (map (boundKey cat) ss)"
  shows "distinct (map uniqueKey ss)"
proof -
  let ?g = "map_option key \<circ> (\<lambda>n. findMetadataForMesh n cat)"
  have "map (boundKey cat) ss = map ?g (map uniqueKey ss)"
    by (simp add: boundKey_def)
  with assms have "distinct (map ?g (map uniqueKey ss))" by (simp only:)
  then show ?thesis using distinct_map [of ?g "map uniqueKey ss"] by blast
qed

lemma card_usedMetadataKeys:
  assumes "bindInvariant cat st"
  shows "card (usedMetadataKeys st) = length (structures st)"
proof -
  from assms have dis: "distinct (map (boundKey cat) (structures st))"
    and eq: "set (map (boundKey cat) (structures st)) = Some ` usedMetadataKeys st"
    by (simp_all add: bindInvariant_def)
  have "card (usedMetadataKeys st) = card (Some ` usedMetadataKeys st)"
    by (simp add: card_image)
  also have "\<dots> = card (set (map (boundKey cat) (structures st)))"
    by (simp only: eq)
  also have "\<dots> = length (map (boundKey cat) (structures st))"
    using dis by (rule distinct_card)
  finally show ?thesis by simp
qed

text \<open>
  Claim C3. For every scene and catalog, the binding result has no two bound
  structures with the same catalog key (and the catalog keys of the bound
  structures are exactly the consumed keys), no two bound structures with the
  same raw mesh identifier, and as many consumed keys as bound structures.
\<close>

theorem binding_uniqueness:
  "distinct (map (boundKey cat) (processedStructures cat scene))
   \<and> set (map (boundKey cat) (processedStructures cat scene))
       = Some ` usedMetadataKeys (traverse cat scene)
   \<and> distinct (map uniqueKey (processedStructures cat scene))
   \<and> card (usedMetadataKeys (traverse cat scene)) = length (processedStructures cat scene)"
proof -
  have inv: "bindInvariant cat (traverse cat scene)" by (rule bindInvariant_traverse)
  then have d: "distinct (map (boundKey cat) (processedStructures cat scene))"
    and e: "set (map (boundKey cat) (processedStructures cat scene))
            = Some ` usedMetadataKeys (traverse cat scene)"
    by (simp_all add: bindInvariant_def processedStructures_def)
  from d have u: "distinct (map uniqueKey (processedStructures cat scene))"
    by (rule distinct_uniqueKey)
  from card_usedMetadataKeys [OF inv]
  have c: "card (usedMetadataKeys (traverse cat scene)) = length (processedStructures cat scene)"
    by (simp add: processedStructures_def)
  from d e u c show ?thesis by simp
qed

text \<open>
  Claim C1 says that a raw identifier whose matched record fails the filter
  still consumes its catalog key, so that a later identifier matching the same
  key counts as a duplicate. The traversal tests the filter before it marks the
  key: with the organ record \<open>heart\<close> in the catalog, after \<open>heart001\<close> no key is
  consumed, and of \<open>heart001\<close>, \<open>heart002\<close> both are counted as filtered and none
  as duplicate.
\<close>

theorem filtered_key_not_consumed_counterexample:
  "usedMetadataKeys (traverse heartCatalog [Mesh ''heart001'']) = {}
   \<and> ''heart'' \<notin> usedMetadataKeys (traverse heartCatalog [Mesh ''heart001'', Mesh ''heart002''])
   \<and> skippedByTypeOrName (traverse heartCatalog [Mesh ''heart001'', Mesh ''heart002'']) = 2
   \<and> skippedDuplicate (traverse heartCatalog [Mesh ''heart001'', Mesh ''heart002'']) = 0"
  by code_simp

text \<open>
  Claim C1, amended. For every scene and catalog, the filter is applied to a
  matched raw identifier whose key is not yet consumed, before the key is
  marked: an identifier whose matched record fails the filter consumes no key,
  emits no bound structure and is counted as filtered every time it occurs.
  So the filtered counter is the number of visited meshes whose matched record
  fails the filter, every consumed key and every bound structure has a record
  that passes the filter, and the duplicates and the bound structures together
  are the visited meshes whose matched record passes it.
\<close>

theorem filter_before_consumption:
  "skippedByTypeOrName (traverse cat scene) = length (filter (failsFilter cat) scene)
   \<and> (\<forall>k \<in> usedMetadataKeys (traverse cat scene). renderableKey cat k)
   \<and> (\<forall>s \<in> set (processedStructures cat scene). shouldRenderByTypeAndName (metadata s))
   \<and> skippedDuplicate (traverse cat scene) + length (processedStructures cat scene)
       = length (filter (passesFilter cat) scene)"
proof -
  have inv: "bindInvariant cat (traverse cat scene)" by (rule bindInvariant_traverse)
  have 1: "skippedByTypeOrName (traverse cat scene) = length (filter (failsFilter cat) scene)"
    using foldl_skippedByTypeOrName [OF bindInvariant_initial, of cat scene]
    by (simp add: traverse_def initialBindState_def)
  have 2: "skippedDuplicate (traverse cat scene) + length (processedStructures cat scene)
       = length (filter (passesFilter cat) scene)"
    using foldl_bound_or_duplicate [OF bindInvariant_initial, of cat scene]
    by (simp add: traverse_def processedStructures_def initialBindState_def)
  from inv have 3: "\<forall>k \<in> usedMetadataKeys (traverse cat scene). renderableKey cat k"
    and 4: "\<forall>s \<in> set (processedStructures cat scene). shouldRenderByTypeAndName (metadata s)"
    by (simp_all add: bindInvariant_def processedStructures_def)
  from 1 2 3 4 show ?thesis by simp
qed

text \<open>
  The amended claim C1 at a scene with two filtered meshes, a bound mesh, a
  duplicate, an unmatched mesh and a node that is not a mesh.
\<close>

theorem filter_before_consumption_witness:
  "''pelvis_bone'' \<in> usedMetadataKeys (traverse mixedCatalog mixedScene)
   \<and> renderableKey mixedCatalog ''pelvis_bone''
   \<and> processedStructures mixedCatalog mixedScene
       = [processGLTFMesh ''pelvis_bone001'' pelvisRecord ''pelvis_bone001'']
   \<and> shouldRenderByTypeAndName pelvisRecord
   \<and> skippedByTypeOrName (traverse mixedCatalog mixedScene) = 2
   \<and> skippedDuplicate (traverse mixedCatalog mixedScene) = 1"
proof -
  have u: "''pelvis_bone'' \<in> usedMetadataKeys (traverse mixedCatalog mixedScene)"
    by code_simp
  have p: "processedStructures mixedCatalog mixedScene
       = [processGLTFMesh ''pelvis_bone001'' pelvisRecord ''pelvis_bone001'']"
    by code_simp
  have m: "metadata (processGLTFMesh ''pelvis_bone001'' pelvisRecord ''pelvis_bone001'') = pelvisRecord"
    by (simp add: processGLTFMesh_def)
  have f: "length (filter (failsFilter mixedCatalog) mixedScene) = 2"
    by code_simp
  have g: "length (filter (passesFilter mixedCatalog) mixedScene) = 2"
    by code_simp
  from filter_before_consumption [of mixedCatalog mixedScene] u p m f g
  show ?thesis by simp
qed

lemma findMetadataForMesh_normalized:
  assumes "cat n = None" and "normalizeGltfName n = k" and "cat k = Some r"
  shows "findMetadataForMesh n cat = Some \<lparr>key = k, data = r\<rparr>"
  using assms by (simp add: findMetadataForMesh_def)

lemma normalize_pelvis_bone001: "normalizeGltfName ''pelvis_bone001'' = ''pelvis_bone''"
  by code_simp

lemma normalize_pelvis_bone002: "normalizeGltfName ''pelvis_bone002'' = ''pelvis_bone''"
  by code_simp

text \<open>
  Claim C7. Binding is order sensitive, the first match wins: for the raw
  identifiers \<open>pelvis_bone001\<close>, \<open>pelvis_bone002\<close>, in this order, and a catalog
  in which both match the renderable entry \<open>pelvis_bone\<close> by their normalized
  form (neither identifier is a catalog key itself), the first becomes the only
  bound structure, with its unnormalized identifier as unique key, and the
  second is counted as a duplicate.
\<close>

theorem first_match_wins:
  assumes "cat ''pelvis_bone'' = Some r" and "shouldRenderByTypeAndName r"
    and "cat ''pelvis_bone001'' = None" and "cat ''pelvis_bone002'' = None"
  shows "processedStructures cat [Mesh ''pelvis_bone001'', Mesh ''pelvis_bone002'']
           = [\<lparr>uniqueKey = ''pelvis_bone001'', mesh = ''pelvis_bone001'', metadata = r,
               center = StructureMetadata.center r\<rparr>]
         \<and> skippedDuplicate (traverse cat [Mesh ''pelvis_bone001'', Mesh ''pelvis_bone002'']) = 1
         \<and> skippedByTypeOrName (traverse cat [Mesh ''pelvis_bone001'', Mesh ''pelvis_bone002'']) = 0
         \<and> unmatchedCount (traverse cat [Mesh ''pelvis_bone001'', Mesh ''pelvis_bone002'']) = 0
         \<and> usedMetadataKeys (traverse cat [Mesh ''pelvis_bone001'', Mesh ''pelvis_bone002''])
             = {''pelvis_bone''}"
proof -
  have f1: "findMetadataForMesh ''pelvis_bone001'' cat = Some \<lparr>key = ''pelvis_bone'', data = r\<rparr>"
    using assms(3) normalize_pelvis_bone001 assms(1) by (rule findMetadataForMesh_normalized)
  have f2: "findMetadataForMesh ''pelvis_bone002'' cat = Some \<lparr>key = ''pelvis_bone'', data = r\<rparr>"
    using assms(4) normalize_pelvis_bone002 assms(1) by (rule findMetadataForMesh_normalized)
  have t: "traverse cat [Mesh ''pelvis_bone001'', Mesh ''pelvis_bone002'']
           = \<lparr>structures = [processGLTFMesh ''pelvis_bone001'' r ''pelvis_bone001''],
              usedMetadataKeys = {''pelvis_bone''}, skippedByTypeOrName = 0,
              skippedDuplicate = 1, unmatchedCount = 0\<rparr>"
    using assms(2) by (simp add: traverse_def visit_def initialBindState_def f1 f2)
  show ?thesis
    by (simp add: processedStructures_def t processGLTFMesh_def)
qed

text \<open>Claim C7 at the catalog whose only entry is \<open>pelvis_bone\<close>.\<close>

theorem first_match_wins_witness:
  "pelvisCatalog ''pelvis_bone'' = Some pelvisRecord
   \<and> shouldRenderByTypeAndName pelvisRecord
   \<and> pelvisCatalog ''pelvis_bone001'' = None
   \<and> pelvisCatalog ''pelvis_bone002'' = None
   \<and> processedStructures pelvisCatalog [Mesh ''pelvis_bone001'', Mesh ''pelvis_bone002'']
           = [\<lparr>uniqueKey = ''pelvis_bone001'', mesh = ''pelvis_bone001'', metadata = pelvisRecord,
               center = StructureMetadata.center pelvisRecord\<rparr>]
   \<and> skippedDuplicate (traverse pelvisCatalog [Mesh ''pelvis_bone001'', Mesh ''pelvis_bone002'']) = 1"
proof -
  have a: "pelvisCatalog ''pelvis_bone'' = Some pelvisRecord" by (simp add: pelvisCatalog_def)
  have b: "shouldRenderByTypeAndName pelvisRecord" by code_simp
  have c: "pelvisCatalog ''pelvis_bone001'' = None" by (simp add: pelvisCatalog_def)
  have d: "pelvisCatalog ''pelvis_bone002'' = None" by (simp add: pelvisCatalog_def)
  from first_match_wins [OF a b c d] a b c d show ?thesis by simp
qed

section \<open>The lookup stages\<close>

lemma normalize_Hip_Bone: "normalizeGltfName ''Hip_Bone'' = ''hip_bone''"
  by code_simp

lemma lookupStage_key:
  "map_option key (findMetadataForMesh n cat) =
     (case lookupStage n cat of
        MatchedExact \<Rightarrow> Some n
      | MatchedNormalized \<Rightarrow> Some (normalizeGltfName n)
      | MatchedLowercase \<Rightarrow> Some (toLowerCase n)
      | Unmatched \<Rightarrow> None)"
  by (auto simp: findMetadataForMesh_def lookupStage_def Let_def split: option.splits)

text \<open>
  Claim C2 says that, for a catalog with the key \<open>hip_bone\<close>, \<open>Hip_Bone\<close> is
  bound, by the third lookup, after the exact and the normalized lookup have
  missed. The normalized form of \<open>Hip_Bone\<close> is \<open>hip_bone\<close> already, so the
  second lookup answers. And a match is not yet a bound structure: when the
  record under \<open>hip_bone\<close> fails the filter, as an organ does, the mesh is
  counted as filtered and nothing is bound.
\<close>

theorem hip_bone_lowercase_stage_counterexample:
  "hipCatalog ''Hip_Bone'' = None
   \<and> hipCatalog (normalizeGltfName ''Hip_Bone'') = Some hipRecord
   \<and> lookupStage ''Hip_Bone'' hipCatalog = MatchedNormalized
   \<and> hipOrganCatalog ''hip_bone'' = Some hipOrganRecord
   \<and> processedStructures hipOrganCatalog [Mesh ''Hip_Bone''] = []
   \<and> usedMetadataKeys (traverse hipOrganCatalog [Mesh ''Hip_Bone'']) = {}
   \<and> skippedByTypeOrName (traverse hipOrganCatalog [Mesh ''Hip_Bone'']) = 1"
proof -
  have a: "hipCatalog ''Hip_Bone'' = None
   \<and> hipCatalog (normalizeGltfName ''Hip_Bone'') = Some hipRecord
   \<and> lookupStage ''Hip_Bone'' hipCatalog = MatchedNormalized"
    by (simp add: lookupStage_def normalize_Hip_Bone hipCatalog_def)
  have b: "hipOrganCatalog ''hip_bone'' = Some hipOrganRecord"
    by (simp add: hipOrganCatalog_def)
  have c: "processedStructures hipOrganCatalog [Mesh ''Hip_Bone''] = []"
    by code_simp
  have d: "usedMetadataKeys (traverse hipOrganCatalog [Mesh ''Hip_Bone'']) = {}"
    by code_simp
  have e: "skippedByTypeOrName (traverse hipOrganCatalog [Mesh ''Hip_Bone'']) = 1"
    by code_simp
  from a b c d e show ?thesis by simp
qed

text \<open>
  Claim C2, amended. For every catalog that has the key \<open>hip_bone\<close>, the raw
  identifier \<open>Hip_Bone\<close> is matched, and never by the third lookup, the one of
  the lowercased name: when \<open>Hip_Bone\<close> is a key itself the exact lookup
  answers, else the exact lookup misses and the second lookup, the one of the
  normalized form, answers with the key \<open>hip_bone\<close>. In that case the scene of
  this one mesh yields one bound structure with unique key \<open>Hip_Bone\<close> and
  consumes \<open>hip_bone\<close> if the record passes the filter, and yields none, with
  the mesh counted as filtered and no key consumed, if it fails the filter.
\<close>

theorem hip_bone_normalized_stage:
  assumes "cat ''hip_bone'' = Some r"
  shows "findMetadataForMesh ''Hip_Bone'' cat \<noteq> None
         \<and> lookupStage ''Hip_Bone'' cat \<noteq> MatchedLowercase
         \<and> (cat ''Hip_Bone'' \<noteq> None \<longrightarrow> lookupStage ''Hip_Bone'' cat = MatchedExact)
         \<and> (cat ''Hip_Bone'' = None \<longrightarrow>
              findMetadataForMesh ''Hip_Bone'' cat = Some \<lparr>key = ''hip_bone'', data = r\<rparr>
              \<and> lookupStage ''Hip_Bone'' cat = MatchedNormalized
              \<and> (shouldRenderByTypeAndName r \<longrightarrow>
                   processedStructures cat [Mesh ''Hip_Bone'']
                     = [\<lparr>uniqueKey = ''Hip_Bone'', mesh = ''Hip_Bone'', metadata = r,
                         center = StructureMetadata.center r\<rparr>]
                   \<and> usedMetadataKeys (traverse cat [Mesh ''Hip_Bone'']) = {''hip_bone''}
                   \<and> skippedByTypeOrName (traverse cat [Mesh ''Hip_Bone'']) = 0)
              \<and> (\<not> shouldRenderByTypeAndName r \<longrightarrow>
                   processedStructures cat [Mesh ''Hip_Bone''] = []
                   \<and> usedMetadataKeys (traverse cat [Mesh ''Hip_Bone'']) = {}
                   \<and> skippedByTypeOrName (traverse cat [Mesh ''Hip_Bone'']) = 1))"
proof -
  have s: "lookupStage ''Hip_Bone'' cat \<noteq> MatchedLowercase"
    using assms by (simp add: lookupStage_def normalize_Hip_Bone)
  have m: "findMetadataForMesh ''Hip_Bone'' cat \<noteq> None"
    using assms by (simp add: findMetadataForMesh_def normalize_Hip_Bone split: option.splits)
  have x: "cat ''Hip_Bone'' \<noteq> None \<longrightarrow> lookupStage ''Hip_Bone'' cat = MatchedExact"
    by (simp add: lookupStage_def)
  have n: "findMetadataForMesh ''Hip_Bone'' cat = Some \<lparr>key = ''hip_bone'', data = r\<rparr>
           \<and> lookupStage ''Hip_Bone'' cat = MatchedNormalized
           \<and> (shouldRenderByTypeAndName r \<longrightarrow>
                processedStructures cat [Mesh ''Hip_Bone'']
                  = [\<lparr>uniqueKey = ''Hip_Bone'', mesh = ''Hip_Bone'', metadata = r,
                      center = StructureMetadata.center r\<rparr>]
                \<and> usedMetadataKeys (traverse cat [Mesh ''Hip_Bone'']) = {''hip_bone''}
                \<and> skippedByTypeOrName (traverse cat [Mesh ''Hip_Bone'']) = 0)
           \<and> (\<not> shouldRenderByTypeAndName r \<longrightarrow>
                processedStructures cat [Mesh ''Hip_Bone''] = []
                \<and> usedMetadataKeys (traverse cat [Mesh ''Hip_Bone'']) = {}
                \<and> skippedByTypeOrName (traverse cat [Mesh ''Hip_Bone'']) = 1)"
    if miss: "cat ''Hip_Bone'' = None"
  proof -
    have f: "findMetadataForMesh ''Hip_Bone'' cat = Some \<lparr>key = ''hip_bone'', data = r\<rparr>"
      using miss normalize_Hip_Bone assms by (rule findMetadataForMesh_normalized)
    have l: "lookupStage ''Hip_Bone'' cat = MatchedNormalized"
      using assms miss by (simp add: lookupStage_def normalize_Hip_Bone)
    have t: "traverse cat [Mesh ''Hip_Bone'']
             = (if shouldRenderByTypeAndName r
                then initialBindState
                       \<lparr>usedMetadataKeys := {''hip_bone''},
                        structures := [processGLTFMesh ''Hip_Bone'' r ''Hip_Bone'']\<rparr>
                else initialBindState\<lparr>skippedByTypeOrName := 1\<rparr>)"
      by (simp add: traverse_def visit_def initialBindState_def f)
    have b: "shouldRenderByTypeAndName r \<longrightarrow>
                processedStructures cat [Mesh ''Hip_Bone'']
                  = [\<lparr>uniqueKey = ''Hip_Bone'', mesh = ''Hip_Bone'', metadata = r,
                      center = StructureMetadata.center r\<rparr>]
                \<and> usedMetadataKeys (traverse cat [Mesh ''Hip_Bone'']) = {''hip_bone''}
                \<and> skippedByTypeOrName (traverse cat [Mesh ''Hip_Bone'']) = 0"
      by (simp add: processedStructures_def t processGLTFMesh_def initialBindState_def)
    have c: "\<not> shouldRenderByTypeAndName r \<longrightarrow>
                processedStructures cat [Mesh ''Hip_Bone''] = []
                \<and> usedMetadataKeys (traverse cat [Mesh ''Hip_Bone'']) = {}
                \<and> skippedByTypeOrName (traverse cat [Mesh ''Hip_Bone'']) = 1"
      by (simp add: processedStructures_def t initialBindState_def)
    from f l b c show ?thesis by simp
  qed
  from s m x n show ?thesis by blast
qed

text \<open>
  The amended claim C2 at three catalogs: \<open>hip_bone\<close> as a bone, \<open>hip_bone\<close>
  as an organ, and one that has the key \<open>Hip_Bone\<close> as well.
\<close>

theorem hip_bone_normalized_stage_witness:
  "hipCatalog ''hip_bone'' = Some hipRecord
   \<and> hipCatalog ''Hip_Bone'' = None
   \<and> shouldRenderByTypeAndName hipRecord
   \<and> lookupStage ''Hip_Bone'' hipCatalog = MatchedNormalized
   \<and> processedStructures hipCatalog [Mesh ''Hip_Bone'']
        = [\<lparr>uniqueKey = ''Hip_Bone'', mesh = ''Hip_Bone'', metadata = hipRecord,
            center = StructureMetadata.center hipRecord\<rparr>]
   \<and> usedMetadataKeys (traverse hipCatalog [Mesh ''Hip_Bone'']) = {''hip_bone''}
   \<and> hipOrganCatalog ''hip_bone'' = Some hipOrganRecord
   \<and> hipOrganCatalog ''Hip_Bone'' = None
   \<and> \<not> shouldRenderByTypeAndName hipOrganRecord
   \<and> lookupStage ''Hip_Bone'' hipOrganCatalog = MatchedNormalized
   \<and> processedStructures hipOrganCatalog [Mesh ''Hip_Bone''] = []
   \<and> skippedByTypeOrName (traverse hipOrganCatalog [Mesh ''Hip_Bone'']) = 1
   \<and> hipBothCatalog ''hip_bone'' = Some hipOrganRecord
   \<and> hipBothCatalog ''Hip_Bone'' \<noteq> None
   \<and> lookupStage ''Hip_Bone'' hipBothCatalog = MatchedExact"
proof -
  have a: "hipCatalog ''hip_bone'' = Some hipRecord" by (simp add: hipCatalog_def)
  have b: "hipCatalog ''Hip_Bone'' = None" by (simp add: hipCatalog_def)
  have c: "shouldRenderByTypeAndName hipRecord" by code_simp
  have a': "hipOrganCatalog ''hip_bone'' = Some hipOrganRecord" by (simp add: hipOrganCatalog_def)
  have b': "hipOrganCatalog ''Hip_Bone'' = None" by (simp add: hipOrganCatalog_def)
  have c': "\<not> shouldRenderByTypeAndName hipOrganRecord" by code_simp
  have a'': "hipBothCatalog ''hip_bone'' = Some hipOrganRecord" by (simp add: hipBothCatalog_def)
  have b'': "hipBothCatalog ''Hip_Bone'' \<noteq> None" by (simp add: hipBothCatalog_def)
  from hip_bone_normalized_stage [of hipCatalog hipRecord, OF a]
    hip_bone_normalized_stage [of hipOrganCatalog hipOrganRecord, OF a']
    hip_bone_normalized_stage [of hipBothCatalog hipOrganRecord, OF a'']
    a b c a' b' c' a'' b''
  show ?thesis by simp
qed

section \<open>The resolver\<close>

text \<open>
  Claim C4. A structure is peeled iff its layer exceeds \<open>3 - peelDepth\<close>, so at
  peel depth 0 layer 3 stays and layer 4 is peeled; a structure that matches
  the search is not peeled away; the target opacity is 0 when peeled and not
  searched, else 1 for a bone and 0.9 for any other category.
\<close>

theorem peel_and_target_opacity:
  "(isPeeled st md \<longleftrightarrow> layer md > 3 - peelDepth st)
   \<and> (shouldPeel st md \<longleftrightarrow> isPeeled st md \<and> \<not> matchesSearch st md)
   \<and> (isPeeled st md \<and> \<not> matchesSearch st md \<longrightarrow> targetOpacity st md = 0)
   \<and> (\<not> (isPeeled st md \<and> \<not> matchesSearch st md) \<and> type md = ''bone'' \<longrightarrow>
        targetOpacity st md = 1)
   \<and> (\<not> (isPeeled st md \<and> \<not> matchesSearch st md) \<and> type md \<noteq> ''bone'' \<longrightarrow>
        targetOpacity st md = 9 / 10)
   \<and> (peelDepth st = 0 \<and> layer md = 3 \<longrightarrow> \<not> isPeeled st md)
   \<and> (peelDepth st = 0 \<and> layer md = 4 \<longrightarrow> isPeeled st md)"
proof -
  have peeled: "isPeeled st md \<longleftrightarrow> layer md > 3 - peelDepth st"
    by (simp add: isPeeled_def maxVisibleLayer_def)
  have override: "shouldPeel st md \<longleftrightarrow> isPeeled st md \<and> \<not> matchesSearch st md"
    by (simp add: shouldPeel_def)
  have hidden: "isPeeled st md \<and> \<not> matchesSearch st md \<longrightarrow> targetOpacity st md = 0"
    by (simp add: targetOpacity_def override)
  have bone: "\<not> (isPeeled st md \<and> \<not> matchesSearch st md) \<and> type md = ''bone'' \<longrightarrow>
        targetOpacity st md = 1"
    by (simp add: targetOpacity_def override)
  have other: "\<not> (isPeeled st md \<and> \<not> matchesSearch st md) \<and> type md \<noteq> ''bone'' \<longrightarrow>
        targetOpacity st md = 9 / 10"
    by (simp add: targetOpacity_def override)
  have boundary: "peelDepth st = 0 \<and> layer md = 3 \<longrightarrow> \<not> isPeeled st md"
    using peeled by simp
  have beyond: "peelDepth st = 0 \<and> layer md = 4 \<longrightarrow> isPeeled st md"
    using peeled by simp
  from peeled override hidden bone other boundary beyond show ?thesis
    by blast
qed

text \<open>
  Claim C4 at peel depth 0: a muscle at layer 4, without and with a search
  that matches it, a muscle at layer 3 and a bone.
\<close>

theorem peel_and_target_opacity_witness:
  "isPeeled defaultState psoasRecord
   \<and> targetOpacity defaultState psoasRecord = 0
   \<and> \<not> isPeeled defaultState transversusRecord
   \<and> targetOpacity defaultState transversusRecord = 9 / 10
   \<and> targetOpacity defaultState pelvisRecord = 1
   \<and> matchesSearch psoasSearch psoasRecord
   \<and> targetOpacity psoasSearch psoasRecord = 9 / 10"
proof -
  have d: "peelDepth defaultState = 0" by (simp add: defaultState_def)
  have l4: "layer psoasRecord = 4" by (simp add: psoasRecord_def)
  have l3: "layer transversusRecord = 3" by (simp add: transversusRecord_def)
  have l0: "layer pelvisRecord = 0" by (simp add: pelvisRecord_def)
  have n: "\<not> matchesSearch defaultState md" for md
    by (simp add: matchesSearch_def defaultState_def)
  have m: "matchesSearch psoasSearch psoasRecord" by code_simp
  have t1: "type psoasRecord \<noteq> ''bone''" by (simp add: psoasRecord_def)
  have t2: "type transversusRecord \<noteq> ''bone''" by (simp add: transversusRecord_def)
  have t3: "type pelvisRecord = ''bone''" by (simp add: pelvisRecord_def)
  from peel_and_target_opacity [of defaultState psoasRecord]
    peel_and_target_opacity [of defaultState transversusRecord]
    peel_and_target_opacity [of defaultState pelvisRecord]
    peel_and_target_opacity [of psoasSearch psoasRecord]
    d l4 l3 l0 n m t1 t2 t3
  show ?thesis by simp
qed

lemma attention_color_distinct:
  "''#FFD700'' \<noteq> highlight (colors md) \<and> ''#FFD700'' \<noteq> default_color (colors md)"
  by (simp add: colors_def TYPE_COLORS_def)

text \<open>
  Claim C5. The target colour follows search match, then highlight, then base:
  a structure that matches the search gets the attention colour whatever is
  hovered or selected; one that does not match, is hovered locally, selected
  or hovered through the store, and is not peeled, gets the highlight colour
  of its category; any other gets the base colour of its category. The
  attention colour differs from both colours of every category.
\<close>

theorem target_color_precedence:
  "(matchesSearch st md \<longrightarrow> targetColor loc st md = ''#FFD700'')
   \<and> (\<not> matchesSearch st md
        \<and> (hovered loc \<or> isSelected st md \<or> hoveredStructureId st = Some (meshId md))
        \<and> \<not> isPeeled st md \<longrightarrow>
        targetColor loc st md = highlight (colors md))
   \<and> (\<not> matchesSearch st md
        \<and> \<not> ((hovered loc \<or> isSelected st md \<or> hoveredStructureId st = Some (meshId md))
              \<and> \<not> isPeeled st md) \<longrightarrow>
        targetColor loc st md = default_color (colors md))
   \<and> ''#FFD700'' \<noteq> highlight (colors md)
   \<and> ''#FFD700'' \<noteq> default_color (colors md)"
  using attention_color_distinct [of md]
  by (auto simp: targetColor_def isHighlighted_def shouldPeel_def)

text \<open>
  Claim C5 at a searched, hovered and selected muscle, a hovered bone, an idle
  bone and a hovered muscle that is peeled.
\<close>

theorem target_color_precedence_witness:
  "matchesSearch psoasSearch psoasRecord
   \<and> isSelected psoasSelected psoasRecord
   \<and> targetColor hoveredLocal psoasSelected psoasRecord = ''#FFD700''
   \<and> targetColor hoveredLocal defaultState pelvisRecord = ''#FFF8E7''
   \<and> targetColor idleLocal defaultState pelvisRecord = ''#E8DCC4''
   \<and> targetColor hoveredLocal defaultState psoasRecord = ''#C41E3A''"
proof -
  have m: "matchesSearch psoasSearch psoasRecord" by code_simp
  have m': "matchesSearch psoasSelected psoasRecord" by code_simp
  have s: "isSelected psoasSelected psoasRecord"
    by (simp add: isSelected_def psoasSelected_def psoasRecord_def)
  have n: "\<not> matchesSearch defaultState md" for md
    by (simp add: matchesSearch_def defaultState_def)
  have h: "hovered hoveredLocal" "\<not> hovered idleLocal"
    by (simp_all add: hoveredLocal_def idleLocal_def)
  have i: "\<not> isSelected defaultState md" "hoveredStructureId defaultState \<noteq> Some (meshId md)" for md
    by (simp_all add: isSelected_def defaultState_def)
  have p: "\<not> isPeeled defaultState pelvisRecord" "isPeeled defaultState psoasRecord"
    by (simp_all add: isPeeled_def maxVisibleLayer_def defaultState_def pelvisRecord_def
        psoasRecord_def)
  have c: "highlight (colors pelvisRecord) = ''#FFF8E7''"
    "default_color (colors pelvisRecord) = ''#E8DCC4''"
    "default_color (colors psoasRecord) = ''#C41E3A''"
    by (simp_all add: colors_def TYPE_COLORS_def pelvisRecord_def psoasRecord_def)
  from target_color_precedence [of psoasSelected psoasRecord hoveredLocal]
    target_color_precedence [of defaultState pelvisRecord hoveredLocal]
    target_color_precedence [of defaultState pelvisRecord idleLocal]
    target_color_precedence [of defaultState psoasRecord hoveredLocal]
    m m' s n h i p c
  show ?thesis by simp
qed



section \<open>Interactivity and selection\<close>

text \<open>
  Within one render the flag is the comparison of the opacity that the render
  read with 0.1, and it guards the element and the three handlers.
\<close>

lemma render_time_threshold:
  "(isInteractive (local v) \<longleftrightarrow> animatedOpacity (local v) > 1 / 10)
   \<and> (\<not> isInteractive (local v) \<longrightarrow>
        onPointerOver setHovered md v = v
        \<and> onPointerOut setHovered md v = v
        \<and> onClick setSelected md v = v)
   \<and> (isTypeVisible (store v) md \<longrightarrow>
        StructureMesh (local v) (store v) md
          = Some \<lparr>raycastEnabled = isInteractive (local v)\<rparr>)"
  by (simp add: isInteractive_def onPointerOver_def onPointerOut_def onClick_def
      StructureMesh_def)

text \<open>
  Between renders the frame callback moves the ref by eight hundredths of its
  distance to the target, and leaves the view of the last render alone.
\<close>

lemma decay_28: "((23::real) / 25) ^ 28 < 1 / 10"
  by (simp add: power_divide)

lemma useFrame_step:
  assumes "isTypeVisible (store (rendered k)) md"
  shows "animatedOpacityRef (useFrame md k)
         = targetOpacity (store (rendered k)) md
           + (animatedOpacityRef k - targetOpacity (store (rendered k)) md) * (23 / 25)"
proof -
  have "a + (t - a) * (2 / 25) = t + (a - t) * (23 / 25)" for a t :: real
    by (simp add: field_simps)
  with assms show ?thesis by (simp add: useFrame_def Let_def)
qed

lemma useFrame_funpow:
  assumes "isTypeVisible (store (rendered m)) md"
  shows "rendered ((useFrame md ^^ n) m) = rendered m
         \<and> animatedOpacityRef ((useFrame md ^^ n) m)
             = targetOpacity (store (rendered m)) md
               + (animatedOpacityRef m - targetOpacity (store (rendered m)) md) * (23 / 25) ^ n"
proof (induction n)
  case 0
  show ?case by simp
next
  case (Suc n)
  let ?k = "(useFrame md ^^ n) m"
  from Suc have r: "rendered ?k = rendered m"
    and a: "animatedOpacityRef ?k
             = targetOpacity (store (rendered m)) md
               + (animatedOpacityRef m - targetOpacity (store (rendered m)) md) * (23 / 25) ^ n"
    by simp_all
  have v: "isTypeVisible (store (rendered ?k)) md" using assms r by simp
  have "rendered (useFrame md ?k) = rendered m"
    using v r by (simp add: useFrame_def Let_def)
  moreover have "animatedOpacityRef (useFrame md ?k)
      = targetOpacity (store (rendered m)) md
               + (animatedOpacityRef m - targetOpacity (store (rendered m)) md) * (23 / 25) ^ Suc n"
    unfolding useFrame_step [OF v] r a by simp
  ultimately show ?case by simp
qed

lemma useFrame_funpow_flags:
  assumes "isTypeVisible (store (rendered m)) md"
  shows "materialOpacity ((useFrame md ^^ Suc n) m) = animatedOpacityRef ((useFrame md ^^ Suc n) m)
         \<and> depthWrite ((useFrame md ^^ Suc n) m)
             = (animatedOpacityRef ((useFrame md ^^ Suc n) m) > 1 / 2)"
proof -
  let ?k = "(useFrame md ^^ n) m"
  have "isTypeVisible (store (rendered ?k)) md"
    using assms useFrame_funpow [OF assms, of n] by simp
  then show ?thesis by (simp add: useFrame_def Let_def)
qed

lemma mountedPsoas_facts:
  "isTypeVisible defaultState psoasRecord"
  "targetOpacity defaultState psoasRecord = 0"
  "animatedOpacityRef mountedPsoas = 1"
  "rendered mountedPsoas
     = \<lparr>local = \<lparr>hovered = False, animatedOpacity = 1\<rparr>, store = defaultState,
        cursor = ''auto''\<rparr>"
  by (simp_all add: mountedPsoas_def mount_def isTypeVisible_def visibilityKey_def
      TYPE_TO_VISIBILITY_KEY_def targetOpacity_def shouldPeel_def isPeeled_def
      maxVisibleLayer_def matchesSearch_def defaultState_def allLayers_def psoasRecord_def)

text \<open>
  Claim C9 says that a structure is interactive iff the opacity it displays is
  greater than 0.1, and that below it the structure receives no pointer events.
  The component computes the flag when it renders, and the frame callback
  lowers the displayed opacity without a render. A muscle at layer 4, mounted
  in the initial state of the store, is peeled; after 28 frames it displays an
  opacity below 0.1 and \<open>depthWrite\<close>, which the frame callback sets, is off,
  but the flag of the last render is still on: the element keeps its ray
  casting, a click calls the selection action with the key of the structure
  and a pointer-over sets \<open>hovered\<close> and the cursor. Only a further render
  turns the flag off.
\<close>

theorem stale_interactive_flag:
  "animatedOpacityRef fadedPsoas < 1 / 10
   \<and> materialOpacity fadedPsoas = animatedOpacityRef fadedPsoas
   \<and> \<not> depthWrite fadedPsoas
   \<and> isInteractive (local (rendered fadedPsoas))
   \<and> renderedElement psoasRecord fadedPsoas = Some \<lparr>raycastEnabled = True\<rparr>
   \<and> store (rendered (click setSelected psoasRecord fadedPsoas))
       = setSelected (Some ''psoas_major'') defaultState
   \<and> hovered (local (rendered (pointerOver setHovered psoasRecord fadedPsoas)))
   \<and> cursor (rendered (pointerOver setHovered psoasRecord fadedPsoas)) = ''pointer''
   \<and> \<not> isInteractive (local (rendered (rerender fadedPsoas)))
   \<and> renderedElement psoasRecord (rerender fadedPsoas) = Some \<lparr>raycastEnabled = False\<rparr>
   \<and> click setSelected psoasRecord (rerender fadedPsoas) = rerender fadedPsoas"
proof -
  have v: "isTypeVisible (store (rendered mountedPsoas)) psoasRecord"
    by (simp add: mountedPsoas_facts)
  from useFrame_funpow [OF v, of 28]
  have r: "rendered fadedPsoas = rendered mountedPsoas"
    and a: "animatedOpacityRef fadedPsoas = (23 / 25) ^ 28"
    by (simp_all add: fadedPsoas_def mountedPsoas_facts)
  from a decay_28 have small: "animatedOpacityRef fadedPsoas < 1 / 10"
    by simp
  from useFrame_funpow_flags [OF v, of 27]
  have m: "materialOpacity fadedPsoas = animatedOpacityRef fadedPsoas"
    and d: "depthWrite fadedPsoas = (animatedOpacityRef fadedPsoas > 1 / 2)"
    by (simp_all add: fadedPsoas_def)
  from d small have nd: "\<not> depthWrite fadedPsoas" by simp
  have i: "isInteractive (local (rendered fadedPsoas))"
    by (simp add: r mountedPsoas_facts isInteractive_def)
  have e: "renderedElement psoasRecord fadedPsoas = Some \<lparr>raycastEnabled = True\<rparr>"
    using v i by (simp add: renderedElement_def StructureMesh_def r)
  have s: "\<not> isSelected defaultState psoasRecord"
    by (simp add: isSelected_def defaultState_def)
  have c: "store (rendered (click setSelected psoasRecord fadedPsoas))
       = setSelected (Some ''psoas_major'') defaultState"
    using i s by (simp add: click_def onClick_def r mountedPsoas_facts psoasRecord_def)
  have h: "hovered (local (rendered (pointerOver setHovered psoasRecord fadedPsoas)))
     \<and> cursor (rendered (pointerOver setHovered psoasRecord fadedPsoas)) = ''pointer''"
    using i by (simp add: pointerOver_def onPointerOver_def)
  have ni: "\<not> isInteractive (local (rendered (rerender fadedPsoas)))"
    using small by (simp add: rerender_def isInteractive_def)
  have e': "renderedElement psoasRecord (rerender fadedPsoas) = Some \<lparr>raycastEnabled = False\<rparr>"
    using v ni by (simp add: renderedElement_def StructureMesh_def rerender_def r)
  have c': "click setSelected psoasRecord (rerender fadedPsoas) = rerender fadedPsoas"
    using ni by (simp add: click_def onClick_def)
  from small m nd i e c h ni e' c' show ?thesis by simp
qed

text \<open>
  Claim C8. Selection is a toggle: \<open>setSelectedStructure\<close> with the key that is
  selected leaves no selection; calling it twice with a key that was not
  selected before leaves no selection; and a click on an interactive structure
  that is selected clears the selection.
\<close>

theorem selection_toggle:
  "(selectedStructureId st = Some x \<longrightarrow>
      selectedStructureId (setSelectedStructure (Some x) st) = None)
   \<and> (selectedStructureId st \<noteq> Some x \<longrightarrow>
      selectedStructureId (setSelectedStructure (Some x) st) = Some x
      \<and> selectedStructureId (setSelectedStructure (Some x) (setSelectedStructure (Some x) st))
          = None)
   \<and> (isInteractive (local v) \<and> isSelected (store v) md \<longrightarrow>
      selectedStructureId (store (onClick setSelectedStructure md v)) = None)"
proof -
  have again: "selectedStructureId (setSelectedStructure (Some x) st) = None"
    if "selectedStructureId st = Some x"
    using that by (simp add: setSelectedStructure_def)
  have first: "selectedStructureId (setSelectedStructure (Some x) st) = Some x"
    if "selectedStructureId st \<noteq> Some x"
    using that by (auto simp: setSelectedStructure_def)
  have twice: "selectedStructureId
                 (setSelectedStructure (Some x) (setSelectedStructure (Some x) st)) = None"
    if "selectedStructureId st \<noteq> Some x"
    using first [OF that] by (simp add: setSelectedStructure_def)
  have click: "selectedStructureId (store (onClick setSelectedStructure md v)) = None"
    if "isInteractive (local v)" and "isSelected (store v) md"
    using that by (simp add: onClick_def setSelectedStructure_def)
  from again first twice click show ?thesis
    by blast
qed

text \<open>
  Claim C8 at the selected bone \<open>pelvis_bone\<close>, and at the state without a
  selection.
\<close>

theorem selection_toggle_witness:
  "selectedStructureId (store selectedView) = Some ''pelvis_bone''
   \<and> selectedStructureId (setSelectedStructure (Some ''pelvis_bone'') (store selectedView)) = None
   \<and> selectedStructureId defaultState \<noteq> Some ''pelvis_bone''
   \<and> selectedStructureId
        (setSelectedStructure (Some ''pelvis_bone'')
          (setSelectedStructure (Some ''pelvis_bone'') defaultState)) = None
   \<and> isInteractive (local selectedView)
   \<and> isSelected (store selectedView) pelvisRecord
   \<and> selectedStructureId (store (onClick setSelectedStructure pelvisRecord selectedView)) = None"
proof -
  have a: "selectedStructureId (store selectedView) = Some ''pelvis_bone''"
    by (simp add: selectedView_def)
  have b: "selectedStructureId defaultState \<noteq> Some ''pelvis_bone''"
    by (simp add: defaultState_def)
  have c: "isInteractive (local selectedView)"
    by (simp add: isInteractive_def selectedView_def idleLocal_def)
  have d: "isSelected (store selectedView) pelvisRecord"
    by (simp add: isSelected_def selectedView_def pelvisRecord_def)
  from selection_toggle [of "store selectedView" "''pelvis_bone''" selectedView pelvisRecord]
    selection_toggle [of defaultState "''pelvis_bone''" selectedView pelvisRecord]
    a b c d
  show ?thesis by simp
qed

end
